theory Spec2Isabelle
  imports Main
begin

section \<open>The HTTP gateway of \<open>server.py\<close>\<close>

text \<open>
  Python text is modelled as \<^typ>\<open>string\<close>. The double quote and the backslash cannot
  be written inside a string literal, so they are named.
\<close>

definition dquote :: char where
  "dquote = CHR 0x22"

definition backslash :: char where
  "backslash = CHR 0x5C"

definition squote :: char where
  "squote = CHR 0x27"

subsection \<open>Exceptions and outcomes\<close>

text \<open>
  The exceptions that can leave \<open>run_command\<close> or the conversion script.
  \<open>ValueError\<close> carries its message. \<open>LaunchError\<close> stands for every exception
  \<open>subprocess.run\<close> raises before the child runs, \<open>CalledProcessError\<close> carries the
  return code and the captured texts.
\<close>

datatype launch_error = FileNotFound | PermissionDenied | OtherLaunchFailure

datatype exn =
    ValueError string
  | IndexError
  | LaunchError launch_error
  | CalledProcessError int string string
  | UnicodeDecodeError
  | FileNotFoundError

text \<open>
  A Python call returns a value, raises, or (for a child that never exits: there is no
  timeout) never comes back.
\<close>

datatype 'a outcome = Returns 'a | Raises exn | Blocks

subsection \<open>Text mode\<close>

text \<open>
  Text mode reads \<open>\r\n\<close> and a lone \<open>\r\<close> as \<open>\n\<close>. This is what \<open>open(path, 'r')\<close>
  does with the default \<open>newline=None\<close>, and what \<open>subprocess.run\<close> does to the captured
  output under \<open>text=True\<close> (\<open>data.replace("\r\n", "\n").replace("\r", "\n")\<close>).
\<close>

definition CR :: char where "CR = CHR 0x0D"
definition LF :: char where "LF = CHR 0x0A"

fun read_text :: "string \<Rightarrow> string" where
  "read_text [] = []"
| "read_text [c] = (if c = CR then [LF] else [c])"
| "read_text (c # d # cs) =
     (if c = CR \<and> d = LF then LF # read_text cs
      else if c = CR then LF # read_text (d # cs)
      else c # read_text (d # cs))"

subsection \<open>\<open>shlex.split\<close>\<close>

text \<open>
  \<open>shlex.split(command)\<close> is the standard library's lexer in POSIX mode with
  \<open>whitespace_split = True\<close>, \<open>commenters = ''\<close> and no punctuation characters.
  The lexer state of the library is a character; here it is a datatype:
  \<open>None\<close> is \<open>Ended\<close>, \<open>' '\<close> is \<open>Blank\<close>, \<open>'a'\<close> is \<open>InWord\<close>, a quote character
  \<open>q\<close> is \<open>InQuote q\<close> and the escape character \<open>e\<close> is \<open>InEscape e\<close>.
\<close>

datatype lex_state = Ended | Blank | InWord | InQuote char | InEscape char

definition whitespace :: "char set" where
  "whitespace = {CHR '' '', CHR 0x09, CHR 0x0D, CHR 0x0A}"

definition quotes :: "char set" where
  "quotes = {squote, dquote}"

definition escape :: "char set" where
  "escape = {backslash}"

definition escapedquotes :: "char set" where
  "escapedquotes = {dquote}"

definition wordchars :: "char set" where
  "wordchars = set ''abcdfeghijklmnopqrstuvwxyzABCDEFGHIJKLMNOPQRSTUVWXYZ0123456789_''"

text \<open>The end of \<open>read_token\<close>: an empty token that was never quoted is \<open>None\<close>.\<close>

definition emit :: "bool \<Rightarrow> string \<Rightarrow> lex_state \<Rightarrow> string
    \<Rightarrow> exn + (string option \<times> lex_state \<times> string)" where
  "emit quoted token st rest =
     Inr (if \<not> quoted \<and> token = [] then None else Some token, st, rest)"

text \<open>
  \<open>read_token st escapedstate quoted token input\<close>: one character is read per round
  of the library's loop. The result is the token, the lexer state kept for the next call,
  and the unread input.
\<close>

fun read_token :: "lex_state \<Rightarrow> lex_state \<Rightarrow> bool \<Rightarrow> string \<Rightarrow> string
    \<Rightarrow> exn + (string option \<times> lex_state \<times> string)" where
  "read_token Ended es quoted token [] = emit quoted [] Ended []"
| "read_token Blank es quoted token [] = emit quoted token Ended []"
| "read_token (InQuote q) es quoted token [] = Inl (ValueError ''No closing quotation'')"
| "read_token (InEscape e) es quoted token [] = Inl (ValueError ''No escaped character'')"
| "read_token InWord es quoted token [] = emit quoted token Ended []"
| "read_token Ended es quoted token (c # cs) = emit quoted [] Ended cs"
| "read_token Blank es quoted token (c # cs) =
     (if c \<in> whitespace then
        (if token \<noteq> [] \<or> quoted then emit quoted token Blank cs
         else read_token Blank es quoted token cs)
      else if c \<in> escape then read_token (InEscape c) InWord quoted token cs
      else if c \<in> wordchars then read_token InWord es quoted [c] cs
      else if c \<in> quotes then read_token (InQuote c) es quoted token cs
      else read_token InWord es quoted [c] cs)"
| "read_token (InQuote q) es quoted token (c # cs) =
     (if c = q then read_token InWord es True token cs
      else if c \<in> escape \<and> q \<in> escapedquotes
        then read_token (InEscape c) (InQuote q) True token cs
      else read_token (InQuote q) es True (token @ [c]) cs)"
| "read_token (InEscape e) es quoted token (c # cs) =
     (let token' =
        (case es of
           InQuote q \<Rightarrow> if c \<noteq> e \<and> c \<noteq> q then token @ [e] else token
         | _ \<Rightarrow> token)
      in read_token es es quoted (token' @ [c]) cs)"
| "read_token InWord es quoted token (c # cs) =
     (if c \<in> whitespace then
        (if token \<noteq> [] \<or> quoted then emit quoted token Blank cs
         else read_token Blank es quoted token cs)
      else if c \<in> quotes then read_token (InQuote c) es quoted token cs
      else if c \<in> escape then read_token (InEscape c) InWord quoted token cs
      else read_token InWord es quoted (token @ [c]) cs)"

text \<open>Reading a token never lengthens the input, and a token costs at least one character.\<close>

lemma read_token_length:
  "read_token st es quoted token input = Inr (r, st', rest) \<Longrightarrow> length rest \<le> length input"
  by (induction st es quoted token input rule: read_token.induct)
     (auto simp: emit_def Let_def split: if_splits dest: le_SucI)

lemma read_token_shorter:
  assumes "read_token st Blank False [] input = Inr (Some t, st', rest)"
  shows "length rest < length input"
proof (cases input)
  case Nil
  with assms show ?thesis by (cases st) (simp_all add: emit_def)
next
  case (Cons c cs)
  with assms have "length rest \<le> length cs"
    by (cases st)
       (auto simp: emit_def Let_def split: if_splits lex_state.splits
             dest: read_token_length)
  with Cons show ?thesis by simp
qed

text \<open>
  \<open>list(lex)\<close>: tokens are read until \<open>read_token\<close> gives \<open>None\<close>. Every call starts
  with \<open>quoted = False\<close>, \<open>escapedstate = ' '\<close> and an empty token; the lexer state is
  kept between the calls.
\<close>

function tokens :: "lex_state \<Rightarrow> string \<Rightarrow> exn + string list" where
  "tokens st input =
     (case read_token st Blank False [] input of
        Inl e \<Rightarrow> Inl e
      | Inr (None, st', rest) \<Rightarrow> Inr []
      | Inr (Some t, st', rest) \<Rightarrow>
          (case tokens st' rest of Inl e \<Rightarrow> Inl e | Inr ts \<Rightarrow> Inr (t # ts)))"
  by pat_completeness auto
termination
  by (relation "measure (\<lambda>(st, input). length input)")
     (auto dest: read_token_shorter)

declare tokens.simps [simp del]

definition shlex_split :: "string \<Rightarrow> exn + string list" where
  "shlex_split s = tokens Blank s"

subsection \<open>\<open>subprocess.run\<close> and the command runner\<close>

text \<open>
  What a pipe of the child delivers: bytes that decode in the encoding of the locale,
  given as the characters they decode to, or bytes that do not decode.
\<close>

datatype captured = Text string | Undecodable

text \<open>
  The solver binary and the operating system are outside the program: a \<open>child\<close> says
  what happens when an argument vector is executed directly (no shell). The child cannot
  be started, it exits with a return code and what it wrote to its standard output and
  to its standard error, or it never exits.
\<close>

datatype proc_outcome =
    Launch_failed launch_error
  | Exited int captured captured
  | Never_exits

type_synonym child = "string list \<Rightarrow> proc_outcome"

record completed_process =
  returncode :: int
  stdout :: string
  stderr :: string

text \<open>
  \<open>text=True\<close>: what a pipe delivered is decoded and its line ends are translated; bytes
  that do not decode raise \<open>UnicodeDecodeError\<close>.
\<close>

fun translate_newlines :: "captured \<Rightarrow> exn + string" where
  "translate_newlines (Text data) = Inr (read_text data)"
| "translate_newlines Undecodable = Inl UnicodeDecodeError"

text \<open>
  \<open>subprocess.run(argv, check=True, stdout=PIPE, stderr=PIPE, text=True)\<close>. An empty
  argument vector has no \<open>args[0]\<close>. Standard output and then standard error are
  translated when the child has exited, before the return code is looked at; with
  \<open>check=True\<close> a non-zero return code raises \<open>CalledProcessError\<close>, which carries the
  translated output.
\<close>

definition subprocess_run :: "child \<Rightarrow> string list \<Rightarrow> completed_process outcome" where
  "subprocess_run os argv =
     (if argv = [] then Raises IndexError
      else case os argv of
        Launch_failed e \<Rightarrow> Raises (LaunchError e)
      | Never_exits \<Rightarrow> Blocks
      | Exited rc out err \<Rightarrow>
          (case translate_newlines out of
             Inl e \<Rightarrow> Raises e
           | Inr out' \<Rightarrow>
               (case translate_newlines err of
                  Inl e \<Rightarrow> Raises e
                | Inr err' \<Rightarrow>
                    if rc \<noteq> 0 then Raises (CalledProcessError rc out' err')
                    else Returns \<lparr>returncode = rc, stdout = out', stderr = err'\<rparr>)))"

definition build_error_response :: "string \<Rightarrow> string" where
  "build_error_response message =
     ''{ '' @ [dquote] @ ''error'' @ [dquote] @ '': '' @ [dquote] @ message @ [dquote] @ '' }''"

text \<open>The body of the \<open>try\<close> block of \<open>run_command\<close>.\<close>

definition run_command_try :: "child \<Rightarrow> string \<Rightarrow> string outcome" where
  "run_command_try os command =
     (case shlex_split command of
        Inl e \<Rightarrow> Raises e
      | Inr argv \<Rightarrow>
          (case subprocess_run os argv of
             Returns result \<Rightarrow> Returns (stdout result)
           | Raises e \<Rightarrow> Raises e
           | Blocks \<Rightarrow> Blocks))"

text \<open>The \<open>except subprocess.CalledProcessError as e\<close> clause is the only handler.\<close>

definition run_command :: "child \<Rightarrow> string \<Rightarrow> string outcome" where
  "run_command os command =
     (case run_command_try os command of
        Raises (CalledProcessError rc out err) \<Rightarrow> Returns (build_error_response err)
      | r \<Rightarrow> r)"

subsection \<open>The two routes\<close>

definition getstart_command :: "string \<Rightarrow> string \<Rightarrow> string" where
  "getstart_command game_name variant_id =
     ''bin/gamesman getstart '' @ game_name @ '' '' @ variant_id"

definition getstart :: "child \<Rightarrow> string \<Rightarrow> string \<Rightarrow> string outcome" where
  "getstart os game_name variant_id = run_command os (getstart_command game_name variant_id)"

definition query_command :: "string \<Rightarrow> string \<Rightarrow> string \<Rightarrow> string" where
  "query_command game_name variant_id position =
     ''bin/gamesman query -- '' @ game_name @ '' '' @ variant_id @ '' '' @ position"

definition query :: "child \<Rightarrow> string \<Rightarrow> string \<Rightarrow> string \<Rightarrow> string outcome" where
  "query os game_name variant_id position =
     run_command os (query_command game_name variant_id position)"

text \<open>
  The URL map built by the two \<open>@app.route\<close> decorators resolves a request to
  \<open>getstart\<close> with two path segments (rule \<open>/<game_name>/<variant_id>/\<close>), to \<open>query\<close>
  with three (rule \<open>/<game_name>/<variant_id>/<position>\<close>), or to no view function.
\<close>

datatype request =
    Pattern_A string string
  | Pattern_B string string string
  | Unmatched

text \<open>
  The framework's defaults: a view function that returns a string gives status 200
  with that string as the body, an exception that leaves the view function gives 500,
  and a path that no rule matches gives 404. (For a path that lacks the trailing slash
  of the first rule the router answers with a redirect; that answer is not 200 either
  and is not told apart from 404 here.)
\<close>

datatype response = Ok_response string | Not_found | Internal_server_error

fun status_code :: "response \<Rightarrow> nat" where
  "status_code (Ok_response b) = 200"
| "status_code Not_found = 404"
| "status_code Internal_server_error = 500"

fun make_response :: "string outcome \<Rightarrow> response option" where
  "make_response (Returns b) = Some (Ok_response b)"
| "make_response (Raises e) = Some Internal_server_error"
| "make_response Blocks = None"

text \<open>One request; \<open>None\<close> when the handler never returns, so that nothing is sent.\<close>

fun handle_request :: "child \<Rightarrow> request \<Rightarrow> response option" where
  "handle_request os (Pattern_A g v) = make_response (getstart os g v)"
| "handle_request os (Pattern_B g v p) = make_response (query os g v p)"
| "handle_request os Unmatched = Some Not_found"

text \<open>The command string a request is turned into, when a rule matches it.\<close>

fun command_of :: "request \<Rightarrow> string option" where
  "command_of (Pattern_A g v) = Some (getstart_command g v)"
| "command_of (Pattern_B g v p) = Some (query_command g v p)"
| "command_of Unmatched = None"

subsection \<open>Words that the lexer leaves alone\<close>

text \<open>
  A character is plain when it is no whitespace, no quote and no backslash; the shell
  metacharacters \<open>;\<close>, \<open>|\<close>, \<open>&\<close>, \<open>$\<close>, \<open><\<close>, \<open>>\<close> and the dash are plain.
  \<open>join_words\<close> is \<open>' '.join\<close>.
\<close>

definition plain :: "char \<Rightarrow> bool" where
  "plain c = (c \<notin> whitespace \<and> c \<notin> quotes \<and> c \<notin> escape)"

definition plain_word :: "string \<Rightarrow> bool" where
  "plain_word w = (w \<noteq> [] \<and> list_all plain w)"

fun join_words :: "string list \<Rightarrow> string" where
  "join_words [] = []"
| "join_words [w] = w"
| "join_words (w # ws) = w @ '' '' @ join_words ws"

subsection \<open>Valid JSON\<close>

text \<open>
  The grammar of RFC 8259 as a pushdown recogniser that reads one character per step:
  the stack holds the open objects and arrays, the state says what may come next.
  It is used to say whether an error body is valid JSON.
\<close>

datatype json_ctx = In_object | In_array

datatype json_state =
    Value_start
  | Value_or_close
  | Key_or_close
  | Key_start
  | In_string bool
  | In_escape bool
  | In_unicode nat bool
  | After_key
  | After_value
  | In_literal string
  | Num_minus
  | Num_zero
  | Num_int
  | Num_frac_start
  | Num_frac
  | Num_exp_start
  | Num_exp_sign
  | Num_exp

definition json_ws :: "char \<Rightarrow> bool" where
  "json_ws c = (c \<in> {CHR '' '', CHR 0x09, CHR 0x0A, CHR 0x0D})"

definition json_digit :: "char \<Rightarrow> bool" where
  "json_digit c = (c \<in> set ''0123456789'')"

definition json_hex :: "char \<Rightarrow> bool" where
  "json_hex c = (c \<in> set ''0123456789abcdefABCDEF'')"

definition json_control :: "char \<Rightarrow> bool" where
  "json_control c = (of_char c < (32 :: nat))"

definition after_value :: "json_ctx list \<Rightarrow> char \<Rightarrow> (json_state \<times> json_ctx list) option" where
  "after_value stack c =
     (if json_ws c then Some (After_value, stack)
      else if c = CHR '','' then
        (case stack of
           In_object # _ \<Rightarrow> Some (Key_start, stack)
         | In_array # _ \<Rightarrow> Some (Value_start, stack)
         | [] \<Rightarrow> None)
      else if c = CHR ''}'' then
        (case stack of In_object # up \<Rightarrow> Some (After_value, up) | _ \<Rightarrow> None)
      else if c = CHR '']'' then
        (case stack of In_array # up \<Rightarrow> Some (After_value, up) | _ \<Rightarrow> None)
      else None)"

definition value_start :: "json_ctx list \<Rightarrow> char \<Rightarrow> (json_state \<times> json_ctx list) option" where
  "value_start stack c =
     (if c = CHR ''{'' then Some (Key_or_close, In_object # stack)
      else if c = CHR ''['' then Some (Value_or_close, In_array # stack)
      else if c = dquote then Some (In_string False, stack)
      else if c = CHR ''-'' then Some (Num_minus, stack)
      else if c = CHR ''0'' then Some (Num_zero, stack)
      else if json_digit c then Some (Num_int, stack)
      else if c = CHR ''t'' then Some (In_literal ''rue'', stack)
      else if c = CHR ''f'' then Some (In_literal ''alse'', stack)
      else if c = CHR ''n'' then Some (In_literal ''ull'', stack)
      else None)"

definition is_exp :: "char \<Rightarrow> bool" where
  "is_exp c = (c = CHR ''e'' \<or> c = CHR ''E'')"

fun json_step :: "json_state \<Rightarrow> json_ctx list \<Rightarrow> char \<Rightarrow> (json_state \<times> json_ctx list) option" where
  "json_step Value_start stack c =
     (if json_ws c then Some (Value_start, stack) else value_start stack c)"
| "json_step Value_or_close stack c =
     (if json_ws c then Some (Value_or_close, stack)
      else if c = CHR '']'' then Some (After_value, tl stack)
      else value_start stack c)"
| "json_step Key_or_close stack c =
     (if json_ws c then Some (Key_or_close, stack)
      else if c = CHR ''}'' then Some (After_value, tl stack)
      else if c = dquote then Some (In_string True, stack)
      else None)"
| "json_step Key_start stack c =
     (if json_ws c then Some (Key_start, stack)
      else if c = dquote then Some (In_string True, stack)
      else None)"
| "json_step (In_string key) stack c =
     (if c = dquote then Some (if key then After_key else After_value, stack)
      else if c = backslash then Some (In_escape key, stack)
      else if json_control c then None
      else Some (In_string key, stack))"
| "json_step (In_escape key) stack c =
     (if c = dquote \<or> c = backslash \<or> c \<in> set ''/bfnrt'' then Some (In_string key, stack)
      else if c = CHR ''u'' then Some (In_unicode 4 key, stack)
      else None)"
| "json_step (In_unicode n key) stack c =
     (if json_hex c then Some (if n \<le> 1 then In_string key else In_unicode (n - 1) key, stack)
      else None)"
| "json_step After_key stack c =
     (if json_ws c then Some (After_key, stack)
      else if c = CHR '':'' then Some (Value_start, stack)
      else None)"
| "json_step After_value stack c = after_value stack c"
| "json_step (In_literal []) stack c = None"
| "json_step (In_literal (x # xs)) stack c =
     (if c = x then Some (if xs = [] then After_value else In_literal xs, stack) else None)"
| "json_step Num_minus stack c =
     (if c = CHR ''0'' then Some (Num_zero, stack)
      else if json_digit c then Some (Num_int, stack)
      else None)"
| "json_step Num_zero stack c =
     (if c = CHR ''.'' then Some (Num_frac_start, stack)
      else if is_exp c then Some (Num_exp_start, stack)
      else after_value stack c)"
| "json_step Num_int stack c =
     (if json_digit c then Some (Num_int, stack)
      else if c = CHR ''.'' then Some (Num_frac_start, stack)
      else if is_exp c then Some (Num_exp_start, stack)
      else after_value stack c)"
| "json_step Num_frac_start stack c =
     (if json_digit c then Some (Num_frac, stack) else None)"
| "json_step Num_frac stack c =
     (if json_digit c then Some (Num_frac, stack)
      else if is_exp c then Some (Num_exp_start, stack)
      else after_value stack c)"
| "json_step Num_exp_start stack c =
     (if c = CHR ''+'' \<or> c = CHR ''-'' then Some (Num_exp_sign, stack)
      else if json_digit c then Some (Num_exp, stack)
      else None)"
| "json_step Num_exp_sign stack c =
     (if json_digit c then Some (Num_exp, stack) else None)"
| "json_step Num_exp stack c =
     (if json_digit c then Some (Num_exp, stack) else after_value stack c)"

fun json_final :: "json_state \<Rightarrow> bool" where
  "json_final After_value = True"
| "json_final Num_zero = True"
| "json_final Num_int = True"
| "json_final Num_frac = True"
| "json_final Num_exp = True"
| "json_final _ = False"

fun json_run :: "json_state \<Rightarrow> json_ctx list \<Rightarrow> string \<Rightarrow> bool" where
  "json_run st stack [] = (stack = [] \<and> json_final st)"
| "json_run st stack (c # cs) =
     (case json_step st stack c of
        None \<Rightarrow> False
      | Some (st', stack') \<Rightarrow> json_run st' stack' cs)"

definition valid_json :: "string \<Rightarrow> bool" where
  "valid_json s = json_run Value_start [] s"

text \<open>
  Whether the recogniser is inside a string, and whether it is outside every escape
  sequence; \<open>count_dquote\<close> counts the double quotes of a text.
\<close>

fun in_string :: "json_state \<Rightarrow> bool" where
  "in_string (In_string key) = True"
| "in_string _ = False"

fun unescaped :: "json_state \<Rightarrow> bool" where
  "unescaped (In_escape key) = False"
| "unescaped (In_unicode n key) = False"
| "unescaped (In_literal xs) = (dquote \<notin> set xs)"
| "unescaped _ = True"

definition count_dquote :: "string \<Rightarrow> nat" where
  "count_dquote s = length (filter (\<lambda>c. c = dquote) s)"

section \<open>The conversion script \<open>convert.py\<close>\<close>

subsection \<open>\<open>int(s, 2)\<close> and \<open>hex\<close>\<close>

text \<open>
  \<open>int(binary_value, 2)\<close>: blanks around the literal, a sign, the prefix \<open>0b\<close> or \<open>0B\<close>
  and single underscores between digits (one may follow the prefix) are accepted;
  anything else is a \<open>ValueError\<close>. \<open>bin_value\<close> is the number that a row of binary
  digits denotes.
\<close>

definition is_bit :: "char \<Rightarrow> bool" where
  "is_bit c = (c = CHR ''0'' \<or> c = CHR ''1'')"

definition bit_value :: "char \<Rightarrow> nat" where
  "bit_value c = (if c = CHR ''1'' then 1 else 0)"

definition bin_value :: "string \<Rightarrow> nat" where
  "bin_value bits = foldl (\<lambda>a c. 2 * a + bit_value c) 0 bits"

definition int_space :: "char \<Rightarrow> bool" where
  "int_space c = (c \<in> {CHR '' '', CHR 0x09, CHR 0x0A, CHR 0x0B, CHR 0x0C, CHR 0x0D})"

fun strip_sign :: "string \<Rightarrow> bool \<times> string" where
  "strip_sign [] = (False, [])"
| "strip_sign (c # cs) =
     (if c = CHR ''+'' then (False, cs)
      else if c = CHR ''-'' then (True, cs)
      else (False, c # cs))"

fun strip_0b :: "string \<Rightarrow> string" where
  "strip_0b (a # b # cs) =
     (if a = CHR ''0'' \<and> (b = CHR ''b'' \<or> b = CHR ''B'') then
        (case cs of
           [] \<Rightarrow> cs
         | u # us \<Rightarrow> if u = CHR ''_'' then us else cs)
      else a # b # cs)"
| "strip_0b s = s"

fun digits_ok :: "string \<Rightarrow> bool" where
  "digits_ok [] = False"
| "digits_ok [c] = is_bit c"
| "digits_ok (c # d # cs) =
     (is_bit c \<and> (if d = CHR ''_'' then digits_ok cs else digits_ok (d # cs)))"

definition int_base2 :: "string \<Rightarrow> exn + int" where
  "int_base2 s =
     (let (negative, s') = strip_sign (dropWhile int_space s);
          s'' = strip_0b s';
          body = takeWhile (\<lambda>c. is_bit c \<or> c = CHR ''_'') s'';
          rest = dropWhile (\<lambda>c. is_bit c \<or> c = CHR ''_'') s''
      in if digits_ok body \<and> list_all int_space rest
         then Inr ((if negative then - 1 else 1) * int (bin_value (filter is_bit body)))
         else Inl (ValueError ''invalid literal for int() with base 2''))"

text \<open>\<open>hex(n)\<close>: \<open>0x\<close> and the lowercase digits without leading zeros, after the sign.\<close>

definition hex_digit :: "nat \<Rightarrow> char" where
  "hex_digit d = ''0123456789abcdef'' ! d"

fun hex_digits :: "nat \<Rightarrow> string" where
  "hex_digits n = (if n < 16 then [hex_digit n] else hex_digits (n div 16) @ [hex_digit (n mod 16)])"

declare hex_digits.simps [simp del]

definition hex :: "int \<Rightarrow> string" where
  "hex n = (if n < 0 then ''-0x'' @ hex_digits (nat (- n)) else ''0x'' @ hex_digits (nat n))"

subsection \<open>The substitution\<close>

text \<open>The callback of \<open>re.sub\<close>, applied to the matched text \<open>match.group(0)\<close>.\<close>

definition binary_to_hex :: "string \<Rightarrow> exn + string" where
  "binary_to_hex binary_value =
     (case int_base2 binary_value of
        Inl e \<Rightarrow> Inl e
      | Inr n \<Rightarrow> Inr (hex n))"

text \<open>
  A match of \<open>0b[01]+\<close> at the start of the text: the matched text and what follows it.
  The \<open>+\<close> is greedy, so the match takes every binary digit that follows \<open>0b\<close>.
\<close>

fun match_binary :: "string \<Rightarrow> (string \<times> string) option" where
  "match_binary (a # b # cs) =
     (if a = CHR ''0'' \<and> b = CHR ''b'' \<and> takeWhile is_bit cs \<noteq> []
      then Some (a # b # takeWhile is_bit cs, dropWhile is_bit cs)
      else None)"
| "match_binary s = None"

lemma match_binary_shorter:
  "match_binary s = Some (m, rest) \<Longrightarrow> length rest < length s"
  by (cases s rule: match_binary.cases)
     (auto split: if_splits intro: le_imp_less_Suc le_SucI length_dropWhile_le)

text \<open>
  \<open>re.sub(binary_pattern, binary_to_hex, content)\<close>: the text is scanned from the left;
  at a match the callback's result is written and the scan goes on behind the match,
  elsewhere the character is copied. An exception of the callback ends the call.
\<close>

function re_sub :: "string \<Rightarrow> exn + string" where
  "re_sub [] = Inr []"
| "re_sub (c # cs) =
     (case match_binary (c # cs) of
        None \<Rightarrow> (case re_sub cs of Inl e \<Rightarrow> Inl e | Inr out \<Rightarrow> Inr (c # out))
      | Some (m, rest) \<Rightarrow>
          (case binary_to_hex m of
             Inl e \<Rightarrow> Inl e
           | Inr h \<Rightarrow> (case re_sub rest of Inl e \<Rightarrow> Inl e | Inr out \<Rightarrow> Inr (h @ out))))"
  by pat_completeness auto
termination
  by (relation "measure length") (auto dest: match_binary_shorter)

declare re_sub.simps(2) [simp del]

subsection \<open>Reading and writing the file\<close>

text \<open>
  A file system maps a path to the characters stored in the file; encodings are not
  modelled (a character is a byte, and the file is taken to decode). Both \<open>open\<close> calls
  use text mode with the default \<open>newline=None\<close>: reading is \<open>read_text\<close>; on writing,
  \<open>\n\<close> becomes the line separator of the platform (\<open>os.linesep\<close>, a parameter here).
\<close>

definition write_text :: "string \<Rightarrow> string \<Rightarrow> string" where
  "write_text linesep s = concat (map (\<lambda>c. if c = LF then linesep else [c]) s)"

type_synonym files = "string \<Rightarrow> string option"

definition convert_binary_to_hex :: "string \<Rightarrow> files \<Rightarrow> string \<Rightarrow> exn + files" where
  "convert_binary_to_hex linesep fs file_path =
     (case fs file_path of
        None \<Rightarrow> Inl FileNotFoundError
      | Some stored \<Rightarrow>
          (case re_sub (read_text stored) of
             Inl e \<Rightarrow> Inl e
           | Inr updated_content \<Rightarrow>
               Inr (fs(file_path \<mapsto> write_text linesep updated_content))))"

text \<open>The last two lines of the script.\<close>

definition file_path :: string where
  "file_path = ''quixo.c''"

definition convert_script :: "string \<Rightarrow> files \<Rightarrow> exn + files" where
  "convert_script linesep fs = convert_binary_to_hex linesep fs file_path"

subsection \<open>What the substitution is expected to do\<close>

text \<open>
  A text cut into pieces: a character that is kept, or a binary literal \<open>0b\<close> followed
  by its digits. \<open>source_text\<close> is the text the pieces come from, \<open>target_text\<close> the
  text with every literal written in hexadecimal. \<open>scan_ok\<close> says that the pieces are
  the matches of a scan from the left: no match starts at a kept character, and a
  literal has at least one digit and takes every digit that follows.
\<close>

datatype piece = Keep char | Literal string

fun source_piece :: "piece \<Rightarrow> string" where
  "source_piece (Keep c) = [c]"
| "source_piece (Literal bits) = ''0b'' @ bits"

fun target_piece :: "piece \<Rightarrow> string" where
  "target_piece (Keep c) = [c]"
| "target_piece (Literal bits) = ''0x'' @ hex_digits (bin_value bits)"

definition source_text :: "piece list \<Rightarrow> string" where
  "source_text ps = concat (map source_piece ps)"

definition target_text :: "piece list \<Rightarrow> string" where
  "target_text ps = concat (map target_piece ps)"

fun scan_ok :: "piece list \<Rightarrow> bool" where
  "scan_ok [] = True"
| "scan_ok (Keep c # ps) = (match_binary (c # source_text ps) = None \<and> scan_ok ps)"
| "scan_ok (Literal bits # ps) =
     (bits \<noteq> [] \<and> list_all is_bit bits
      \<and> (case source_text ps of [] \<Rightarrow> True | d # ds \<Rightarrow> \<not> is_bit d)
      \<and> scan_ok ps)"

text \<open>The number that a row of lowercase hexadecimal digits denotes.\<close>

definition lower_hex :: "char \<Rightarrow> bool" where
  "lower_hex c = (c \<in> set ''0123456789abcdef'')"

definition hex_digit_value :: "char \<Rightarrow> nat" where
  "hex_digit_value c =
     (if c \<in> set ''0123456789'' then of_char c - 48 else of_char c - 87)"

definition hex_value :: "string \<Rightarrow> nat" where
  "hex_value h = foldl (\<lambda>a c. 16 * a + hex_digit_value c) 0 h"

text \<open>What the script leaves in \<open>quixo.c\<close>.\<close>

definition rewritten :: "string \<Rightarrow> files \<Rightarrow> string option" where
  "rewritten linesep fs =
     (case convert_script linesep fs of Inl e \<Rightarrow> None | Inr fs' \<Rightarrow> fs' file_path)"

section \<open>Solvers and files used in the examples\<close>

definition chess_solver :: child where
  "chess_solver argv =
     (if argv = [''bin/gamesman'', ''getstart'', ''chess'', ''101'']
        then Exited 0 (Text ''start position'') (Text [])
      else if argv = [''bin/gamesman'', ''query'', ''--'', ''chess'', ''101'', ''-x'']
        then Exited 2 (Text []) (Text ''illegal position'')
      else if argv = [''bin/gamesman'', ''query'', ''--'', ''chess'', ''101'', ''loop'']
        then Never_exits
      else Launch_failed FileNotFound)"

definition injecting_solver :: child where
  "injecting_solver argv =
     Exited 1 (Text []) (Text (''bad position'' @ [dquote] @ '', '' @ [dquote] @ ''code''
                  @ [dquote] @ '': '' @ [dquote] @ ''7''))"

definition crlf_solver :: child where
  "crlf_solver argv = Exited 0 (Text [CHR ''a'', CR, LF, CHR ''b'']) (Text [])"

definition cr_error_solver :: child where
  "cr_error_solver argv = Exited 1 (Text []) (Text [CHR ''a'', CR, CHR ''b''])"

definition garbled_solver :: child where
  "garbled_solver argv = Exited 1 Undecodable (Text ''illegal position'')"

definition cr_files :: files where
  "cr_files = Map.empty(file_path \<mapsto> [CHR ''a'', CR, CHR ''b''])"

definition quixo_files :: files where
  "quixo_files = Map.empty(file_path \<mapsto> ''x = 0b1010;'')"

section \<open>Lemmas\<close>

subsection \<open>The lexer\<close>

lemma read_token_word:
  "list_all plain w \<Longrightarrow> sp \<in> whitespace \<Longrightarrow> token \<noteq> [] \<Longrightarrow>
   read_token InWord es quoted token (w @ sp # rest) = Inr (Some (token @ w), Blank, rest)"
  by (induction w arbitrary: token) (auto simp: plain_def emit_def)

lemma read_token_word_end:
  "list_all plain w \<Longrightarrow> token \<noteq> [] \<Longrightarrow>
   read_token InWord es quoted token w = Inr (Some (token @ w), Ended, [])"
  by (induction w arbitrary: token) (auto simp: plain_def emit_def)

lemma read_token_plain:
  assumes "plain_word w" "sp \<in> whitespace"
  shows "read_token Blank es False [] (w @ sp # rest) = Inr (Some w, Blank, rest)"
proof (cases w)
  case Nil
  with assms show ?thesis by (simp add: plain_word_def)
next
  case (Cons c cs)
  with assms have "plain c" "list_all plain cs" by (simp_all add: plain_word_def)
  then show ?thesis using Cons assms(2)
    by (simp add: read_token_word) (simp add: plain_def)
qed

lemma read_token_plain_end:
  assumes "plain_word w"
  shows "read_token Blank es False [] w = Inr (Some w, Ended, [])"
proof (cases w)
  case Nil
  with assms show ?thesis by (simp add: plain_word_def)
next
  case (Cons c cs)
  with assms have "plain c" "list_all plain cs" by (simp_all add: plain_word_def)
  then show ?thesis using Cons
    by (simp add: read_token_word_end) (simp add: plain_def)
qed

lemma tokens_plain:
  assumes "plain_word w" "sp \<in> whitespace"
  shows "tokens Blank (w @ sp # rest) = map_sum id ((#) w) (tokens Blank rest)"
  by (subst tokens.simps) (simp add: read_token_plain[OF assms] split: sum.splits)

lemma tokens_Ended_Nil: "tokens Ended [] = Inr []"
  by (subst tokens.simps) (simp add: emit_def)

lemma tokens_Blank_Nil: "tokens Blank [] = Inr []"
  by (subst tokens.simps) (simp add: emit_def)

lemma tokens_plain_end:
  assumes "plain_word w"
  shows "tokens Blank w = Inr [w]"
  by (subst tokens.simps) (simp add: read_token_plain_end[OF assms] tokens_Ended_Nil)

lemma shlex_split_plain:
  "plain_word w \<Longrightarrow>
   shlex_split (w @ CHR '' '' # rest) = map_sum id ((#) w) (shlex_split rest)"
  using tokens_plain[of w "CHR '' ''" rest] by (simp add: shlex_split_def whitespace_def)

lemma shlex_split_plain_end: "plain_word w \<Longrightarrow> shlex_split w = Inr [w]"
  by (simp add: shlex_split_def tokens_plain_end)

lemma shlex_split_join_words:
  "list_all plain_word ws \<Longrightarrow> shlex_split (join_words ws) = Inr ws"
proof (induction ws rule: join_words.induct)
  case 1
  show ?case by (simp add: shlex_split_def tokens_Blank_Nil)
next
  case (2 w)
  then show ?case by (simp add: shlex_split_plain_end)
next
  case (3 w v ws)
  then show ?case by (simp add: shlex_split_plain)
qed

lemmas char_defs =
  whitespace_def quotes_def escape_def squote_def dquote_def backslash_def

lemma plain_word_bin_gamesman: "plain_word ''bin/gamesman''"
  by (simp add: plain_word_def plain_def char_defs)

lemma plain_word_getstart: "plain_word ''getstart''"
  by (simp add: plain_word_def plain_def char_defs)

lemma plain_word_query: "plain_word ''query''"
  by (simp add: plain_word_def plain_def char_defs)

lemma plain_word_dashes: "plain_word ''--''"
  by (simp add: plain_word_def plain_def char_defs)

text \<open>The fixed words of both templates come out as tokens of their own.\<close>

lemma shlex_split_getstart_command:
  "shlex_split (getstart_command g v) =
     map_sum id ((@) [''bin/gamesman'', ''getstart'']) (shlex_split (g @ '' '' @ v))"
proof -
  have "shlex_split (getstart_command g v) =
      shlex_split (''bin/gamesman'' @ CHR '' '' # (''getstart'' @ CHR '' '' # (g @ '' '' @ v)))"
    by (simp add: getstart_command_def)
  also have "\<dots> = map_sum id ((#) ''bin/gamesman'')
      (map_sum id ((#) ''getstart'') (shlex_split (g @ '' '' @ v)))"
    by (simp only: shlex_split_plain[OF plain_word_bin_gamesman]
        shlex_split_plain[OF plain_word_getstart])
  finally show ?thesis by (cases "shlex_split (g @ '' '' @ v)") simp_all
qed

lemma shlex_split_query_command:
  "shlex_split (query_command g v p) =
     map_sum id ((@) [''bin/gamesman'', ''query'', ''--''])
       (shlex_split (g @ '' '' @ v @ '' '' @ p))"
proof -
  have "shlex_split (query_command g v p) =
      shlex_split (''bin/gamesman'' @ CHR '' '' # (''query'' @ CHR '' '' #
        (''--'' @ CHR '' '' # (g @ '' '' @ v @ '' '' @ p))))"
    by (simp add: query_command_def)
  also have "\<dots> = map_sum id ((#) ''bin/gamesman'')
      (map_sum id ((#) ''query'') (map_sum id ((#) ''--'')
        (shlex_split (g @ '' '' @ v @ '' '' @ p))))"
    by (simp only: shlex_split_plain[OF plain_word_bin_gamesman]
        shlex_split_plain[OF plain_word_query] shlex_split_plain[OF plain_word_dashes])
  finally show ?thesis by (cases "shlex_split (g @ '' '' @ v @ '' '' @ p)") simp_all
qed

lemma command_of_argv_nonempty:
  assumes "command_of r = Some cmd" "shlex_split cmd = Inr argv"
  shows "argv \<noteq> []"
proof (cases r)
  case (Pattern_A g v)
  with assms show ?thesis
    by (cases "shlex_split (g @ '' '' @ v)") (auto simp: shlex_split_getstart_command)
next
  case (Pattern_B g v p)
  with assms show ?thesis
    by (cases "shlex_split (g @ '' '' @ v @ '' '' @ p)")
       (auto simp: shlex_split_query_command)
next
  case Unmatched
  with assms show ?thesis by simp
qed

lemma shlex_split_chess:
  "shlex_split ''bin/gamesman getstart chess 101''
     = Inr [''bin/gamesman'', ''getstart'', ''chess'', ''101'']"
  using shlex_split_join_words[of "[''bin/gamesman'', ''getstart'', ''chess'', ''101'']"]
  by (simp add: plain_word_def plain_def char_defs)

lemma run_command_exited:
  assumes "shlex_split command = Inr argv" "argv \<noteq> []"
    and "os argv = Exited rc (Text out) (Text err)"
  shows "run_command os command
           = Returns (if rc = 0 then read_text out else build_error_response (read_text err))"
  using assms by (simp add: run_command_def run_command_try_def subprocess_run_def)

lemma run_command_undecodable:
  assumes "shlex_split command = Inr argv" "argv \<noteq> []"
    and "os argv = Exited rc out err" "out = Undecodable \<or> err = Undecodable"
  shows "run_command os command = Raises UnicodeDecodeError"
  using assms
  by (cases out; cases err)
     (auto simp: run_command_def run_command_try_def subprocess_run_def)

lemma read_text_no_CR: "CR \<notin> set s \<Longrightarrow> read_text s = s"
  by (induction s rule: read_text.induct) auto

lemma read_text_no_backslash: "backslash \<notin> set s \<Longrightarrow> backslash \<notin> set (read_text s)"
  by (induction s rule: read_text.induct) (auto simp: LF_def backslash_def)

lemma read_token_raises:
  "read_token st es quoted token input = Inl e \<Longrightarrow>
   e = ValueError ''No closing quotation'' \<or> e = ValueError ''No escaped character''"
  by (induction st es quoted token input rule: read_token.induct)
     (auto simp: emit_def Let_def split: if_splits)

lemma tokens_raises:
  "tokens st input = Inl e \<Longrightarrow>
   e = ValueError ''No closing quotation'' \<or> e = ValueError ''No escaped character''"
proof (induction st input rule: tokens.induct)
  case (1 st input)
  show ?case
  proof (cases "read_token st Blank False [] input")
    case (Inl e')
    with "1.prems" have "e' = e" by (subst (asm) tokens.simps) simp
    with Inl show ?thesis using read_token_raises by blast
  next
    case (Inr r)
    obtain tk st' rest where r: "r = (tk, st', rest)" by (cases r) auto
    show ?thesis
    proof (cases tk)
      case None
      with Inr r "1.prems" show ?thesis by (subst (asm) tokens.simps) simp
    next
      case (Some t)
      with Inr r "1.prems" have "tokens st' rest = Inl e"
        by (subst (asm) tokens.simps) (simp split: sum.splits)
      with "1.IH"[of r tk "(st', rest)" t st' rest] Inr r Some show ?thesis by simp
    qed
  qed
qed

lemma shlex_split_raises:
  "shlex_split command = Inl e \<Longrightarrow>
   e = ValueError ''No closing quotation'' \<or> e = ValueError ''No escaped character''"
  unfolding shlex_split_def by (rule tokens_raises)


lemma shlex_split_unclosed:
  "shlex_split (''bin/gamesman getstart a '' @ [squote] @ ''b'') = Inl (ValueError ''No closing quotation'')"
  by (simp add: shlex_split_def tokens.simps emit_def wordchars_def char_defs)

lemma shlex_split_query_x:
  "shlex_split (query_command ''chess'' ''101'' ''-x'')
      = Inr [''bin/gamesman'', ''query'', ''--'', ''chess'', ''101'', ''-x'']"
  using shlex_split_join_words[of "[''bin/gamesman'', ''query'', ''--'', ''chess'', ''101'', ''-x'']"]
  by (simp add: plain_word_def plain_def char_defs query_command_def)

lemma shlex_split_getstart_go:
  "shlex_split (getstart_command ''go'' ''9'') = Inr [''bin/gamesman'', ''getstart'', ''go'', ''9'']"
  using shlex_split_join_words[of "[''bin/gamesman'', ''getstart'', ''go'', ''9'']"]
  by (simp add: plain_word_def plain_def char_defs getstart_command_def)

subsection \<open>JSON\<close>

lemmas json_defs = valid_json_def json_ws_def json_digit_def json_hex_def json_control_def
  after_value_def value_start_def is_exp_def dquote_def backslash_def

lemma dquote_not_json:
  "\<not> json_ws dquote" "\<not> json_digit dquote" "\<not> is_exp dquote" "\<not> json_hex dquote"
  "dquote \<noteq> CHR ''.''" "dquote \<noteq> CHR '':''" "dquote \<noteq> CHR '']''" "dquote \<noteq> CHR ''}''"
  "dquote \<noteq> CHR ''0''" "dquote \<noteq> CHR ''+''" "dquote \<noteq> CHR ''-''" "dquote \<noteq> backslash"
  by (simp_all add: json_ws_def json_digit_def is_exp_def json_hex_def dquote_def backslash_def)

lemma after_value_dquote: "after_value stack dquote = None"
  by (simp add: after_value_def json_ws_def dquote_def)

lemma after_value_outside:
  "after_value stack c = Some (st', stack') \<Longrightarrow> unescaped st' \<and> \<not> in_string st'"
  by (auto simp: after_value_def split: if_splits list.splits json_ctx.splits)

lemma value_start_dquote: "value_start stack dquote = Some (In_string False, stack)"
  by (simp add: value_start_def dquote_def)

lemma value_start_outside:
  "value_start stack c = Some (st', stack') \<Longrightarrow> c \<noteq> dquote \<Longrightarrow>
   unescaped st' \<and> \<not> in_string st'"
  by (auto simp: value_start_def dquote_def split: if_splits)

lemma json_step_dquote:
  assumes "json_step st stack dquote = Some (st', stack')" "unescaped st"
  shows "unescaped st' \<and> (in_string st' \<longleftrightarrow> \<not> in_string st)"
proof (cases st)
  case (In_literal xs)
  with assms show ?thesis by (cases xs) (auto split: if_splits)
qed (use assms in \<open>auto simp: dquote_not_json after_value_dquote value_start_dquote
      split: if_splits\<close>)

lemma json_step_other:
  assumes "json_step st stack c = Some (st', stack')" "c \<noteq> dquote" "c \<noteq> backslash"
    "unescaped st"
  shows "unescaped st' \<and> (in_string st' \<longleftrightarrow> in_string st)"
proof (cases st)
  case (In_literal xs)
  with assms show ?thesis by (cases xs) (auto split: if_splits)
qed (use assms in \<open>auto split: if_splits dest: after_value_outside value_start_outside\<close>)

lemma json_step_parity:
  assumes "json_step st stack c = Some (st', stack')" "c \<noteq> backslash" "unescaped st"
  shows "unescaped st' \<and> (in_string st' \<longleftrightarrow> (in_string st \<noteq> (c = dquote)))"
proof (cases "c = dquote")
  case True
  with json_step_dquote[of st stack st' stack'] assms show ?thesis by simp
next
  case False
  with json_step_other[OF assms(1) False assms(2,3)] show ?thesis by simp
qed

lemma json_run_parity:
  "json_run st stack s \<Longrightarrow> backslash \<notin> set s \<Longrightarrow> unescaped st \<Longrightarrow>
   odd (count_dquote s) = in_string st"
proof (induction s arbitrary: st stack)
  case Nil
  then show ?case by (cases st) (simp_all add: count_dquote_def)
next
  case (Cons c cs)
  from Cons.prems(1) obtain st' stack' where
    step: "json_step st stack c = Some (st', stack')" and run: "json_run st' stack' cs"
    by (auto split: option.splits)
  from Cons.prems have c: "c \<noteq> backslash" "backslash \<notin> set cs" by auto
  from json_step_parity[OF step c(1) Cons.prems(3)]
  have st': "unescaped st'" "in_string st' \<longleftrightarrow> (in_string st \<noteq> (c = dquote))" by simp_all
  from Cons.IH[OF run c(2) st'(1)] st'(2) show ?case
    by (auto simp: count_dquote_def)
qed

lemma valid_json_even_dquotes:
  "valid_json s \<Longrightarrow> backslash \<notin> set s \<Longrightarrow> even (count_dquote s)"
  using json_run_parity[of Value_start "[]" s] by (simp add: valid_json_def)

lemma build_error_response_parity:
  "backslash \<notin> set err \<Longrightarrow> odd (count_dquote err) \<Longrightarrow> \<not> valid_json (build_error_response err)"
proof
  assume a: "backslash \<notin> set err" "odd (count_dquote err)" "valid_json (build_error_response err)"
  have "backslash \<notin> set (build_error_response err)"
    using a(1) by (simp add: build_error_response_def dquote_def backslash_def)
  from valid_json_even_dquotes[OF a(3) this]
  show False using a(2) by (simp add: build_error_response_def count_dquote_def dquote_def)
qed

lemma read_text_count_dquote: "count_dquote (read_text s) = count_dquote s"
  by (induction s rule: read_text.induct) (auto simp: count_dquote_def LF_def CR_def dquote_def)

subsection \<open>The substitution\<close>

lemma digits_ok_bits: "bits \<noteq> [] \<Longrightarrow> list_all is_bit bits \<Longrightarrow> digits_ok bits"
  by (induction bits rule: digits_ok.induct) (auto simp: is_bit_def)

lemma is_bit_facts:
  "is_bit c \<Longrightarrow> \<not> int_space c" "is_bit c \<Longrightarrow> c \<noteq> CHR ''_''"
  "is_bit c \<Longrightarrow> c \<noteq> CHR ''+''" "is_bit c \<Longrightarrow> c \<noteq> CHR ''-''"
  by (auto simp: is_bit_def int_space_def)

lemma takeWhile_all: "list_all P xs \<Longrightarrow> takeWhile (\<lambda>c. P c \<or> Q c) xs = xs"
  by (induction xs) auto

lemma dropWhile_all: "list_all P xs \<Longrightarrow> dropWhile (\<lambda>c. P c \<or> Q c) xs = []"
  by (induction xs) auto

lemma filter_all: "list_all P xs \<Longrightarrow> filter P xs = xs"
  by (induction xs) auto

lemma int_base2_literal:
  assumes "bits \<noteq> []" "list_all is_bit bits"
  shows "int_base2 (''0b'' @ bits) = Inr (int (bin_value bits))"
proof -
  obtain c cs where bits: "bits = c # cs" using assms(1) by (cases bits) auto
  with assms(2) have c: "is_bit c" by simp
  have 1: "dropWhile int_space (''0b'' @ bits) = ''0b'' @ bits"
    by (simp add: int_space_def)
  have 2: "strip_sign (''0b'' @ bits) = (False, ''0b'' @ bits)" by simp
  have 3: "strip_0b (''0b'' @ bits) = bits"
    using c by (simp add: bits is_bit_facts)
  show ?thesis
    unfolding int_base2_def 1 2
    by (simp add: 3[simplified] Let_def takeWhile_all dropWhile_all filter_all assms digits_ok_bits)
qed

lemma binary_to_hex_literal:
  assumes "bits \<noteq> []" "list_all is_bit bits"
  shows "binary_to_hex (''0b'' @ bits) = Inr (''0x'' @ hex_digits (bin_value bits))"
  by (simp add: binary_to_hex_def int_base2_literal[OF assms, simplified] hex_def)

lemma hex_digit_cases:
  "d < 16 \<Longrightarrow> lower_hex (hex_digit d) \<and> hex_digit_value (hex_digit d) = d"
proof -
  assume "d < 16"
  then have "d \<in> set [0..<16]" by simp
  then have "d \<in> {0,1,2,3,4,5,6,7,8,9,10,11,12,13,14,15}"
    by (simp add: upt_rec numeral_eq_Suc) 
  then show ?thesis
    by (auto simp: lower_hex_def hex_digit_def hex_digit_value_def)
qed

lemma hex_value_snoc: "hex_value (h @ [c]) = 16 * hex_value h + hex_digit_value c"
  by (simp add: hex_value_def)

lemma hex_digits_correct:
  "hex_digits n \<noteq> [] \<and> list_all lower_hex (hex_digits n) \<and> hex_value (hex_digits n) = n"
proof (induction n rule: hex_digits.induct)
  case (1 n)
  show ?case
  proof (cases "n < 16")
    case True
    with hex_digit_cases[of n] show ?thesis
      by (subst (1 2 3) hex_digits.simps) (simp add: hex_value_def)
  next
    case False
    with "1.IH" hex_digit_cases[of "n mod 16"] show ?thesis
      by (subst (1 2 3) hex_digits.simps) (simp add: hex_value_snoc)
  qed
qed

lemma dropWhile_stops: "case dropWhile P xs of [] \<Rightarrow> True | d # ds \<Rightarrow> \<not> P d"
  by (induction xs) auto

lemma match_binary_Some:
  assumes "match_binary s = Some (m, rest)"
  shows "\<exists>bits. m = ''0b'' @ bits \<and> bits \<noteq> [] \<and> list_all is_bit bits \<and> s = m @ rest
           \<and> (case rest of [] \<Rightarrow> True | d # ds \<Rightarrow> \<not> is_bit d)"
proof (cases s rule: match_binary.cases)
  case (1 a b cs)
  with assms have m: "m = ''0b'' @ takeWhile is_bit cs" "rest = dropWhile is_bit cs"
    "takeWhile is_bit cs \<noteq> []" "a = CHR ''0''" "b = CHR ''b''"
    by (auto split: if_splits)
  have "list_all is_bit (takeWhile is_bit cs)"
    by (simp add: list_all_iff) (meson set_takeWhileD)
  moreover have "case dropWhile is_bit cs of [] \<Rightarrow> True | d # ds \<Rightarrow> \<not> is_bit d"
    by (rule dropWhile_stops)
  ultimately show ?thesis using m 1 by auto
qed (use assms in auto)

lemma re_sub_pieces:
  "\<exists>ps. scan_ok ps \<and> source_text ps = content \<and> re_sub content = Inr (target_text ps)"
proof (induction content rule: re_sub.induct)
  case 1
  have "scan_ok [] \<and> source_text [] = [] \<and> re_sub [] = Inr (target_text [])"
    by (simp add: source_text_def target_text_def)
  then show ?case by blast
next
  case (2 c cs)
  show ?case
  proof (cases "match_binary (c # cs)")
    case None
    from "2.IH"(1)[OF None] obtain ps where
      ps: "scan_ok ps" "source_text ps = cs" "re_sub cs = Inr (target_text ps)" by blast
    have "scan_ok (Keep c # ps) \<and> source_text (Keep c # ps) = c # cs
        \<and> re_sub (c # cs) = Inr (target_text (Keep c # ps))"
      using ps None by (simp add: re_sub.simps(2) source_text_def target_text_def)
    then show ?thesis by blast
  next
    case (Some r)
    obtain m rest where r: "r = (m, rest)" by (cases r) auto
    from match_binary_Some[OF Some[unfolded r]] obtain bits where
      bits: "m = ''0b'' @ bits" "bits \<noteq> []" "list_all is_bit bits" "c # cs = m @ rest"
        "case rest of [] \<Rightarrow> True | d # ds \<Rightarrow> \<not> is_bit d" by blast
    have h: "binary_to_hex m = Inr (''0x'' @ hex_digits (bin_value bits))"
      using binary_to_hex_literal[OF bits(2,3)] bits(1) by simp
    from "2.IH"(2)[OF Some[unfolded r] refl h] obtain ps where
      ps: "scan_ok ps" "source_text ps = rest" "re_sub rest = Inr (target_text ps)" by blast
    have "scan_ok (Literal bits # ps) \<and> source_text (Literal bits # ps) = c # cs
        \<and> re_sub (c # cs) = Inr (target_text (Literal bits # ps))"
      using ps bits h Some r
      by (simp add: re_sub.simps(2) source_text_def target_text_def)
    then show ?thesis by blast
  qed
qed

section \<open>Properties of the gateway\<close>

text \<open>
  C1, as stated, fails. The captured output is read in text mode (\<open>text=True\<close>): a child
  that exits with code zero and writes \<open>a\r\nb\<close> gives the body \<open>a\nb\<close>, which is not
  the child's standard output byte for byte.
\<close>

theorem getstart_crlf_counterexample:
  "shlex_split (getstart_command ''chess'' ''101'')
       = Inr [''bin/gamesman'', ''getstart'', ''chess'', ''101'']
   \<and> crlf_solver [''bin/gamesman'', ''getstart'', ''chess'', ''101'']
       = Exited 0 (Text [CHR ''a'', CR, LF, CHR ''b'']) (Text [])
   \<and> getstart crlf_solver ''chess'' ''101'' = Returns [CHR ''a'', LF, CHR ''b'']
   \<and> handle_request crlf_solver (Pattern_A ''chess'' ''101'')
       = Some (Ok_response [CHR ''a'', LF, CHR ''b''])
   \<and> [CHR ''a'', LF, CHR ''b''] \<noteq> [CHR ''a'', CR, LF, CHR ''b'']"
proof -
  have a: "shlex_split (getstart_command ''chess'' ''101'')
       = Inr [''bin/gamesman'', ''getstart'', ''chess'', ''101'']"
    using shlex_split_chess by (simp add: getstart_command_def)
  have "getstart crlf_solver ''chess'' ''101'' = Returns [CHR ''a'', LF, CHR ''b'']"
    using run_command_exited[of "getstart_command ''chess'' ''101''" _ crlf_solver 0
        "[CHR ''a'', CR, LF, CHR ''b'']" "[]"] a
    by (simp add: getstart_def crlf_solver_def CR_def LF_def)
  with a show ?thesis by (simp add: crlf_solver_def CR_def LF_def)
qed

text \<open>
  C1, amended. For every \<open>game_name\<close> and \<open>variant_id\<close>, Pattern A builds the command
  \<open>bin/gamesman getstart <game_name> <variant_id>\<close> by plain concatenation, and when the
  child started with the tokens of that command exits with code zero and its output
  decodes, the body of the 200 response is the child's standard output as text mode reads
  it: decoded, with \<open>\r\n\<close> and \<open>\r\<close> read as \<open>\n\<close>. An output without carriage return
  is returned character for character.
\<close>

theorem getstart_returns_stdout:
  assumes "shlex_split (getstart_command game_name variant_id) = Inr argv"
    and "os argv = Exited 0 (Text out) (Text err)"
  shows "getstart_command game_name variant_id
           = ''bin/gamesman getstart '' @ game_name @ '' '' @ variant_id
         \<and> getstart os game_name variant_id = Returns (read_text out)
         \<and> handle_request os (Pattern_A game_name variant_id)
             = Some (Ok_response (read_text out))
         \<and> (CR \<notin> set out \<longrightarrow> read_text out = out)"
proof -
  have "argv \<noteq> []"
    using command_of_argv_nonempty[of "Pattern_A game_name variant_id"] assms(1) by simp
  then have "getstart os game_name variant_id = Returns (read_text out)"
    using run_command_exited[of _ argv os 0 out err] assms by (simp add: getstart_def)
  then show ?thesis by (simp add: getstart_command_def read_text_no_CR)
qed

theorem getstart_returns_stdout_witness:
  "shlex_split (getstart_command ''chess'' ''101'')
       = Inr [''bin/gamesman'', ''getstart'', ''chess'', ''101'']
   \<and> chess_solver [''bin/gamesman'', ''getstart'', ''chess'', ''101'']
       = Exited 0 (Text ''start position'') (Text [])
   \<and> CR \<notin> set ''start position''
   \<and> getstart chess_solver ''chess'' ''101'' = Returns ''start position''
   \<and> handle_request chess_solver (Pattern_A ''chess'' ''101'')
       = Some (Ok_response ''start position'')"
proof -
  have a: "shlex_split (getstart_command ''chess'' ''101'')
       = Inr [''bin/gamesman'', ''getstart'', ''chess'', ''101'']"
    using shlex_split_chess by (simp add: getstart_command_def)
  have b: "chess_solver [''bin/gamesman'', ''getstart'', ''chess'', ''101'']
       = Exited 0 (Text ''start position'') (Text [])"
    by (simp add: chess_solver_def)
  have c: "CR \<notin> set ''start position''" by (simp add: CR_def)
  note t = getstart_returns_stdout[of "''chess''" "''101''" _ chess_solver
        "''start position''" "[]", OF a b]
  from t c have d: "read_text ''start position'' = ''start position''" by blast
  from t d have "getstart chess_solver ''chess'' ''101'' = Returns ''start position''
      \<and> handle_request chess_solver (Pattern_A ''chess'' ''101'')
          = Some (Ok_response ''start position'')"
    by metis
  with a b c show ?thesis by blast
qed

text \<open>
  C2, as stated, fails, in two ways. A standard error text that holds double quotes can
  close the string and open a new member: for the text \<open>bad position", "code": "7\<close> the
  error body is \<open>{ "error": "bad position", "code": "7" }\<close>, which is valid JSON. And the
  text that is inserted is the one text mode reads (\<open>text=True\<close>): for the standard error
  \<open>a\rb\<close> the body holds \<open>a\nb\<close>, so it is not the concatenation with what the child
  produced.
\<close>

theorem error_body_valid_json_counterexample:
  "shlex_split ''bin/gamesman getstart chess 101''
     = Inr [''bin/gamesman'', ''getstart'', ''chess'', ''101'']
   \<and> injecting_solver [''bin/gamesman'', ''getstart'', ''chess'', ''101'']
     = Exited 1 (Text []) (Text (''bad position'' @ [dquote] @ '', '' @ [dquote] @ ''code''
                  @ [dquote] @ '': '' @ [dquote] @ ''7''))
   \<and> dquote \<in> set (''bad position'' @ [dquote] @ '', '' @ [dquote] @ ''code'' @ [dquote]
                  @ '': '' @ [dquote] @ ''7'')
   \<and> run_command injecting_solver ''bin/gamesman getstart chess 101''
     = Returns (''{ '' @ [dquote] @ ''error'' @ [dquote] @ '': '' @ [dquote] @ ''bad position''
          @ [dquote] @ '', '' @ [dquote] @ ''code'' @ [dquote] @ '': '' @ [dquote] @ ''7''
          @ [dquote] @ '' }'')
   \<and> valid_json (''{ '' @ [dquote] @ ''error'' @ [dquote] @ '': '' @ [dquote] @ ''bad position''
          @ [dquote] @ '', '' @ [dquote] @ ''code'' @ [dquote] @ '': '' @ [dquote] @ ''7''
          @ [dquote] @ '' }'')
   \<and> cr_error_solver [''bin/gamesman'', ''getstart'', ''chess'', ''101'']
     = Exited 1 (Text []) (Text [CHR ''a'', CR, CHR ''b''])
   \<and> run_command cr_error_solver ''bin/gamesman getstart chess 101''
     = Returns (''{ '' @ [dquote] @ ''error'' @ [dquote] @ '': '' @ [dquote]
          @ [CHR ''a'', LF, CHR ''b''] @ [dquote] @ '' }'')
   \<and> ''{ '' @ [dquote] @ ''error'' @ [dquote] @ '': '' @ [dquote]
          @ [CHR ''a'', LF, CHR ''b''] @ [dquote] @ '' }''
     \<noteq> ''{ '' @ [dquote] @ ''error'' @ [dquote] @ '': '' @ [dquote]
          @ [CHR ''a'', CR, CHR ''b''] @ [dquote] @ '' }''"
proof -
  have 1: "run_command injecting_solver ''bin/gamesman getstart chess 101''
     = Returns (build_error_response (''bad position'' @ [dquote] @ '', '' @ [dquote] @ ''code''
          @ [dquote] @ '': '' @ [dquote] @ ''7''))"
    using run_command_exited[of "''bin/gamesman getstart chess 101''" _ injecting_solver 1 "[]"
        "''bad position'' @ [dquote] @ '', '' @ [dquote] @ ''code'' @ [dquote] @ '': ''
          @ [dquote] @ ''7''"]
      shlex_split_chess
    by (simp add: injecting_solver_def CR_def LF_def dquote_def)
  have 2: "valid_json (''{ '' @ [dquote] @ ''error'' @ [dquote] @ '': '' @ [dquote]
          @ ''bad position'' @ [dquote] @ '', '' @ [dquote] @ ''code'' @ [dquote] @ '': ''
          @ [dquote] @ ''7'' @ [dquote] @ '' }'')"
    by (simp add: json_defs)
  have 3: "run_command cr_error_solver ''bin/gamesman getstart chess 101''
     = Returns (build_error_response [CHR ''a'', LF, CHR ''b''])"
    using run_command_exited[of "''bin/gamesman getstart chess 101''" _ cr_error_solver 1 "[]"
        "[CHR ''a'', CR, CHR ''b'']"]
      shlex_split_chess
    by (simp add: cr_error_solver_def CR_def LF_def)
  have 4: "''{ '' @ [dquote] @ ''error'' @ [dquote] @ '': '' @ [dquote]
          @ [CHR ''a'', LF, CHR ''b''] @ [dquote] @ '' }''
     \<noteq> ''{ '' @ [dquote] @ ''error'' @ [dquote] @ '': '' @ [dquote]
          @ [CHR ''a'', CR, CHR ''b''] @ [dquote] @ '' }''"
    by (simp add: CR_def LF_def)
  from 1 2 3 4 show ?thesis
    using shlex_split_chess
    by (simp add: injecting_solver_def cr_error_solver_def build_error_response_def)
qed

text \<open>
  C2, amended. For every standard error text of a child that exits with a non-zero code
  and whose output decodes, the body is the prefix \<open>{ "error": "\<close>, the text as text mode
  reads it (decoded, with \<open>\r\n\<close> and \<open>\r\<close> read as \<open>\n\<close>) and otherwise as it is, and the
  suffix \<open>" }\<close>, also when the text holds double quotes. Such a body need not be valid
  JSON: it is not valid whenever the text holds an odd number of double quotes and no
  backslash.
\<close>

theorem run_command_error_body:
  assumes "shlex_split command = Inr argv" "argv \<noteq> []"
    and "os argv = Exited rc (Text out) (Text err)" "rc \<noteq> 0"
  shows "run_command os command
           = Returns (''{ '' @ [dquote] @ ''error'' @ [dquote] @ '': '' @ [dquote]
                      @ read_text err @ [dquote] @ '' }'')
         \<and> (CR \<notin> set err \<longrightarrow> read_text err = err)
         \<and> (backslash \<notin> set err \<and> odd (count_dquote err) \<longrightarrow>
              \<not> valid_json (''{ '' @ [dquote] @ ''error'' @ [dquote] @ '': '' @ [dquote]
                      @ read_text err @ [dquote] @ '' }''))"
  using run_command_exited[of command argv os rc out err] assms
    build_error_response_parity[of "read_text err"]
  by (simp add: build_error_response_def read_text_no_CR read_text_no_backslash
      read_text_count_dquote)

theorem run_command_error_body_witness:
  "shlex_split ''bin/gamesman query -- chess 101 -x''
      = Inr [''bin/gamesman'', ''query'', ''--'', ''chess'', ''101'', ''-x'']
   \<and> run_command (\<lambda>argv. Exited 2 (Text []) (Text (''no game '' @ [dquote] @ ''x'')))
        ''bin/gamesman query -- chess 101 -x''
      = Returns (''{ '' @ [dquote] @ ''error'' @ [dquote] @ '': '' @ [dquote] @ ''no game ''
                 @ [dquote] @ ''x'' @ [dquote] @ '' }'')
   \<and> \<not> valid_json (''{ '' @ [dquote] @ ''error'' @ [dquote] @ '': '' @ [dquote] @ ''no game ''
                 @ [dquote] @ ''x'' @ [dquote] @ '' }'')"
proof -
  have a: "shlex_split ''bin/gamesman query -- chess 101 -x''
      = Inr [''bin/gamesman'', ''query'', ''--'', ''chess'', ''101'', ''-x'']"
    using shlex_split_query_x by (simp add: query_command_def)
  have b: "backslash \<notin> set (''no game '' @ [dquote] @ ''x'')
      \<and> odd (count_dquote (''no game '' @ [dquote] @ ''x''))
      \<and> CR \<notin> set (''no game '' @ [dquote] @ ''x'')"
    by (simp add: count_dquote_def dquote_def backslash_def CR_def)
  from run_command_error_body[of "''bin/gamesman query -- chess 101 -x''" _
      "\<lambda>argv. Exited 2 (Text []) (Text (''no game '' @ [dquote] @ ''x''))" 2 "[]"
      "''no game '' @ [dquote] @ ''x''"] a b
  show ?thesis by (simp add: CR_def LF_def dquote_def)
qed

text \<open>
  C3. \<open>run_command\<close> catches exactly one kind of failure, the child exiting with a
  non-zero code, and turns it into the error body. A command that cannot be split
  (\<open>ValueError\<close>), an empty argument vector, every failure to start the child
  (binary missing, permission denied) and output that does not decode leave
  \<open>run_command\<close> as the exception they are; \<open>CalledProcessError\<close> never leaves it.
\<close>

theorem run_command_catches_only_nonzero_exit:
  "run_command os command =
     (case shlex_split command of
        Inl e \<Rightarrow> Raises e
      | Inr argv \<Rightarrow>
          if argv = [] then Raises IndexError
          else (case os argv of
                  Launch_failed le \<Rightarrow> Raises (LaunchError le)
                | Never_exits \<Rightarrow> Blocks
                | Exited rc out err \<Rightarrow>
                    (case (out, err) of
                       (Text out', Text err') \<Rightarrow>
                         Returns (if rc = 0 then read_text out'
                                  else build_error_response (read_text err'))
                     | _ \<Rightarrow> Raises UnicodeDecodeError)))
   \<and> run_command os command \<noteq> Raises (CalledProcessError rc' out' err')"
proof -
  have eq: "run_command os command =
     (case shlex_split command of
        Inl e \<Rightarrow> Raises e
      | Inr argv \<Rightarrow>
          if argv = [] then Raises IndexError
          else (case os argv of
                  Launch_failed le \<Rightarrow> Raises (LaunchError le)
                | Never_exits \<Rightarrow> Blocks
                | Exited rc out err \<Rightarrow>
                    (case (out, err) of
                       (Text out', Text err') \<Rightarrow>
                         Returns (if rc = 0 then read_text out'
                                  else build_error_response (read_text err'))
                     | _ \<Rightarrow> Raises UnicodeDecodeError)))"
  proof (cases "shlex_split command")
    case (Inl e)
    with shlex_split_raises[OF Inl] show ?thesis
      by (auto simp: run_command_def run_command_try_def)
  next
    case (Inr argv)
    then show ?thesis
      by (cases "os argv")
         (auto simp: run_command_def run_command_try_def subprocess_run_def
               split: captured.splits)
  qed
  have "run_command os command \<noteq> Raises (CalledProcessError rc' out' err')"
  proof (cases "shlex_split command")
    case (Inl e)
    with shlex_split_raises[OF Inl] eq show ?thesis by auto
  next
    case (Inr argv)
    with eq show ?thesis by (cases "os argv") (auto split: captured.splits)
  qed
  with eq show ?thesis by simp
qed

theorem run_command_catches_only_nonzero_exit_witness:
  "run_command chess_solver ''bin/gamesman getstart go 9'' = Raises (LaunchError FileNotFound)
   \<and> run_command chess_solver (''bin/gamesman getstart a '' @ [squote] @ ''b'')
       = Raises (ValueError ''No closing quotation'')
   \<and> run_command chess_solver ''bin/gamesman query -- chess 101 -x''
       = Returns (build_error_response ''illegal position'')
   \<and> run_command chess_solver ''   '' = Raises IndexError
   \<and> run_command garbled_solver ''bin/gamesman getstart chess 101''
       = Raises UnicodeDecodeError"
proof -
  have a: "shlex_split ''bin/gamesman getstart go 9'' = Inr [''bin/gamesman'', ''getstart'', ''go'', ''9'']"
    using shlex_split_join_words[of "[''bin/gamesman'', ''getstart'', ''go'', ''9'']"]
    by (simp add: plain_word_def plain_def char_defs)
  have b: "shlex_split ''bin/gamesman query -- chess 101 -x''
      = Inr [''bin/gamesman'', ''query'', ''--'', ''chess'', ''101'', ''-x'']"
    using shlex_split_join_words[of "[''bin/gamesman'', ''query'', ''--'', ''chess'', ''101'', ''-x'']"]
    by (simp add: plain_word_def plain_def char_defs)
  have c: "shlex_split ''   '' = Inr []"
    by (simp add: shlex_split_def tokens.simps emit_def char_defs)
  show ?thesis
    using run_command_catches_only_nonzero_exit[of chess_solver "''bin/gamesman getstart go 9''"]
      run_command_catches_only_nonzero_exit[of chess_solver "''bin/gamesman getstart a '' @ [squote] @ ''b''"]
      run_command_catches_only_nonzero_exit[of chess_solver "''bin/gamesman query -- chess 101 -x''"]
      run_command_catches_only_nonzero_exit[of chess_solver "''   ''"]
      run_command_catches_only_nonzero_exit[of garbled_solver
        "''bin/gamesman getstart chess 101''"]
    by (simp add: a b c shlex_split_unclosed[simplified] shlex_split_chess chess_solver_def
        garbled_solver_def build_error_response_def CR_def LF_def)
qed





text \<open>
  C6. Whenever the child of a matched request exits, with code zero or not, and its output
  decodes, the response has status 200 (the handlers return the string of \<open>run_command\<close>
  and nothing else); a response with another status comes from an unmatched route or from
  an exception that left \<open>run_command\<close>.
\<close>

theorem handle_request_status:
  "(command_of r = Some cmd \<and> shlex_split cmd = Inr argv
      \<and> os argv = Exited rc (Text out) (Text err) \<longrightarrow>
      handle_request os r
        = Some (Ok_response (if rc = 0 then read_text out
                             else build_error_response (read_text err)))
      \<and> status_code (Ok_response (if rc = 0 then read_text out
                                    else build_error_response (read_text err))) = 200)
   \<and> (handle_request os r = Some resp \<and> status_code resp \<noteq> 200 \<longrightarrow>
        r = Unmatched \<or> (\<exists>cmd e. command_of r = Some cmd \<and> run_command os cmd = Raises e))"
proof (intro conjI impI)
  assume a: "command_of r = Some cmd \<and> shlex_split cmd = Inr argv
      \<and> os argv = Exited rc (Text out) (Text err)"
  then have "argv \<noteq> []" using command_of_argv_nonempty by blast
  with a have "run_command os cmd
      = Returns (if rc = 0 then read_text out else build_error_response (read_text err))"
    using run_command_exited[of cmd argv os rc out err] by simp
  with a show "handle_request os r
        = Some (Ok_response (if rc = 0 then read_text out
                             else build_error_response (read_text err)))"
    by (cases r) (auto simp: getstart_def query_def)
next
  show "status_code (Ok_response (if rc = 0 then read_text out
                                  else build_error_response (read_text err))) = 200"
    by simp
next
  assume a: "handle_request os r = Some resp \<and> status_code resp \<noteq> 200"
  show "r = Unmatched \<or> (\<exists>cmd e. command_of r = Some cmd \<and> run_command os cmd = Raises e)"
  proof (cases r)
    case (Pattern_A g v)
    with a show ?thesis
      by (cases "run_command os (getstart_command g v)") (auto simp: getstart_def)
  next
    case (Pattern_B g v p)
    with a show ?thesis
      by (cases "run_command os (query_command g v p)") (auto simp: query_def)
  next
    case Unmatched
    then show ?thesis by simp
  qed
qed

theorem handle_request_status_witness:
  "command_of (Pattern_B ''chess'' ''101'' ''-x'') = Some (query_command ''chess'' ''101'' ''-x'')
   \<and> shlex_split (query_command ''chess'' ''101'' ''-x'')
       = Inr [''bin/gamesman'', ''query'', ''--'', ''chess'', ''101'', ''-x'']
   \<and> chess_solver [''bin/gamesman'', ''query'', ''--'', ''chess'', ''101'', ''-x'']
       = Exited 2 (Text []) (Text ''illegal position'')
   \<and> handle_request chess_solver (Pattern_B ''chess'' ''101'' ''-x'')
       = Some (Ok_response (build_error_response ''illegal position''))
   \<and> handle_request chess_solver (Pattern_A ''go'' ''9'') = Some Internal_server_error
   \<and> status_code Internal_server_error \<noteq> 200
   \<and> run_command chess_solver (getstart_command ''go'' ''9'') = Raises (LaunchError FileNotFound)"
proof -
  have b: "chess_solver [''bin/gamesman'', ''query'', ''--'', ''chess'', ''101'', ''-x'']
       = Exited 2 (Text []) (Text ''illegal position'')"
    by (simp add: chess_solver_def)
  have c: "handle_request chess_solver (Pattern_B ''chess'' ''101'' ''-x'')
       = Some (Ok_response (build_error_response ''illegal position''))"
    using handle_request_status[of "Pattern_B ''chess'' ''101'' ''-x''" _ _ chess_solver 2 "[]"
        "''illegal position''"] shlex_split_query_x b
    by (simp add: CR_def LF_def)
  have d: "run_command chess_solver (getstart_command ''go'' ''9'') = Raises (LaunchError FileNotFound)"
    by (simp add: run_command_def run_command_try_def subprocess_run_def shlex_split_getstart_go
        chess_solver_def)
  then have e: "handle_request chess_solver (Pattern_A ''go'' ''9'') = Some Internal_server_error"
    by (simp add: getstart_def)
  from b c d e shlex_split_query_x show ?thesis by simp
qed

section \<open>Properties of the conversion script\<close>

text \<open>
  C7. The script works on the one path \<open>quixo.c\<close>. Without the file it ends with
  \<open>FileNotFoundError\<close>; with it, the text read is cut into kept characters and the matches
  of \<open>0b[01]+\<close> found by a scan from the left, every match is replaced by its hexadecimal
  form, and the result is written to the same path; no other path changes. The script and
  the gateway have no argument in common: one works on files, the other on a child.
\<close>

theorem convert_script_rewrites_quixo:
  "file_path = ''quixo.c''
   \<and> (fs ''quixo.c'' = None \<longrightarrow> convert_script linesep fs = Inl FileNotFoundError)
   \<and> (fs ''quixo.c'' = Some stored \<longrightarrow>
        (\<exists>ps. scan_ok ps \<and> source_text ps = read_text stored
           \<and> re_sub (read_text stored) = Inr (target_text ps)
           \<and> convert_script linesep fs
               = Inr (fs(''quixo.c'' \<mapsto> write_text linesep (target_text ps)))))"
proof -
  from re_sub_pieces[of "read_text stored"] obtain ps where
    ps: "scan_ok ps" "source_text ps = read_text stored"
      "re_sub (read_text stored) = Inr (target_text ps)"
    by blast
  then have "fs ''quixo.c'' = Some stored \<longrightarrow>
        (\<exists>ps. scan_ok ps \<and> source_text ps = read_text stored
           \<and> re_sub (read_text stored) = Inr (target_text ps)
           \<and> convert_script linesep fs
               = Inr (fs(''quixo.c'' \<mapsto> write_text linesep (target_text ps))))"
    by (auto simp: convert_script_def convert_binary_to_hex_def file_path_def)
  then show ?thesis
    by (simp add: convert_script_def convert_binary_to_hex_def file_path_def)
qed

theorem convert_script_rewrites_quixo_witness:
  "quixo_files ''quixo.c'' = Some ''x = 0b1010;''
   \<and> rewritten [LF] quixo_files = Some ''x = 0xa;''
   \<and> convert_script [LF] Map.empty = Inl FileNotFoundError
   \<and> (\<exists>ps. scan_ok ps \<and> source_text ps = read_text ''x = 0b1010;''
           \<and> convert_script [LF] quixo_files
               = Inr (quixo_files(''quixo.c'' \<mapsto> write_text [LF] (target_text ps))))"
proof -
  have a: "quixo_files ''quixo.c'' = Some ''x = 0b1010;''"
    by (simp add: quixo_files_def file_path_def)
  have r: "re_sub ''x = 0b1010;'' = Inr ''x = 0xa;''"
    using binary_to_hex_literal[of "''1010''"]
    by (simp add: re_sub.simps(2) is_bit_def bin_value_def bit_value_def hex_digits.simps
        hex_digit_def)
  have b: "rewritten [LF] quixo_files = Some ''x = 0xa;''"
    by (simp add: rewritten_def convert_script_def convert_binary_to_hex_def quixo_files_def
        CR_def LF_def r write_text_def)
  note t = convert_script_rewrites_quixo[of quixo_files "[LF]" "''x = 0b1010;''"]
  from t a have c: "\<exists>ps. scan_ok ps \<and> source_text ps = read_text ''x = 0b1010;''
           \<and> convert_script [LF] quixo_files
               = Inr (quixo_files(''quixo.c'' \<mapsto> write_text [LF] (target_text ps)))"
    by blast
  have d: "convert_script [LF] Map.empty = Inl FileNotFoundError"
    using convert_script_rewrites_quixo[of Map.empty "[LF]"] by simp
  from a b c d show ?thesis by blast
qed

text \<open>
  C9. For every match of \<open>0b[01]+\<close> the callback returns \<open>0x\<close> followed by at least one
  lowercase hexadecimal digit, and these digits denote the number that the binary digits
  of the match denote.
\<close>

theorem binary_to_hex_preserves_value:
  assumes "match_binary s = Some (m, rest)"
  shows "\<exists>bits h. m = ''0b'' @ bits \<and> bits \<noteq> [] \<and> list_all is_bit bits
           \<and> binary_to_hex m = Inr (''0x'' @ h)
           \<and> h \<noteq> [] \<and> list_all lower_hex h \<and> hex_value h = bin_value bits"
proof -
  from match_binary_Some[OF assms] obtain bits where
    bits: "m = ''0b'' @ bits" "bits \<noteq> []" "list_all is_bit bits" by blast
  have "binary_to_hex m = Inr (''0x'' @ hex_digits (bin_value bits))"
    using binary_to_hex_literal[OF bits(2,3)] bits(1) by simp
  with bits hex_digits_correct[of "bin_value bits"] show ?thesis by blast
qed

theorem binary_to_hex_preserves_value_witness:
  "match_binary ''0b1010;'' = Some (''0b1010'', '';'')
   \<and> binary_to_hex ''0b1010'' = Inr ''0xa''
   \<and> hex_value ''a'' = bin_value ''1010''
   \<and> (\<exists>bits h. ''0b1010'' = ''0b'' @ bits \<and> bits \<noteq> [] \<and> list_all is_bit bits
           \<and> binary_to_hex ''0b1010'' = Inr (''0x'' @ h)
           \<and> h \<noteq> [] \<and> list_all lower_hex h \<and> hex_value h = bin_value bits)"
proof -
  have a: "match_binary ''0b1010;'' = Some (''0b1010'', '';'')"
    by (simp add: is_bit_def)
  have b: "binary_to_hex ''0b1010'' = Inr ''0xa''"
    using binary_to_hex_literal[of "''1010''"]
    by (simp add: is_bit_def bin_value_def bit_value_def hex_digits.simps hex_digit_def)
  have c: "hex_value ''a'' = bin_value ''1010''"
    by (simp add: hex_value_def hex_digit_value_def bin_value_def bit_value_def)
  from binary_to_hex_preserves_value[OF a] a b c show ?thesis by blast
qed

text \<open>
  C10, as stated for the file, fails. A file \<open>a\rb\<close> holds no match, and the script
  rewrites it as \<open>a\nb\<close> (line separator \<open>\n\<close>) or \<open>a\r\nb\<close> (line separator \<open>\r\n\<close>):
  text mode reads the carriage return as a newline.
\<close>

theorem carriage_return_altered_counterexample:
  "cr_files file_path = Some [CHR ''a'', CR, CHR ''b'']
   \<and> scan_ok [Keep CHR ''a'', Keep CR, Keep CHR ''b'']
   \<and> source_text [Keep CHR ''a'', Keep CR, Keep CHR ''b''] = [CHR ''a'', CR, CHR ''b'']
   \<and> rewritten [LF] cr_files = Some [CHR ''a'', LF, CHR ''b'']
   \<and> rewritten [CR, LF] cr_files = Some [CHR ''a'', CR, LF, CHR ''b'']
   \<and> [CHR ''a'', LF, CHR ''b''] \<noteq> [CHR ''a'', CR, CHR ''b'']
   \<and> [CHR ''a'', CR, LF, CHR ''b''] \<noteq> [CHR ''a'', CR, CHR ''b'']"
  by (simp add: cr_files_def rewritten_def convert_script_def convert_binary_to_hex_def
      re_sub.simps(2) write_text_def source_text_def CR_def LF_def)

text \<open>
  C10, amended. Every character of the text that is read from the file (its content with
  \<open>\r\n\<close> and \<open>\r\<close> read as \<open>\n\<close>) and is no part of a match stands unchanged and in the
  same order in the text that is written back; only the matched literals differ.
\<close>

theorem re_sub_frame:
  "\<exists>ps. source_text ps = content \<and> re_sub content = Inr (target_text ps)
        \<and> scan_ok ps
        \<and> (\<forall>linesep fs path stored. fs path = Some stored \<and> content = read_text stored \<longrightarrow>
              convert_binary_to_hex linesep fs path
                = Inr (fs(path \<mapsto> write_text linesep (target_text ps))))"
proof -
  from re_sub_pieces[of content] obtain ps where
    ps: "scan_ok ps" "source_text ps = content" "re_sub content = Inr (target_text ps)"
    by blast
  then have "\<forall>linesep fs path stored. fs path = Some stored \<and> content = read_text stored \<longrightarrow>
              convert_binary_to_hex linesep fs path
                = Inr (fs(path \<mapsto> write_text linesep (target_text ps)))"
    by (auto simp: convert_binary_to_hex_def)
  with ps show ?thesis by blast
qed

theorem re_sub_frame_witness:
  "source_text [Keep CHR ''x'', Keep CHR ''='', Literal ''101'', Keep CHR '';''] = ''x=0b101;''
   \<and> scan_ok [Keep CHR ''x'', Keep CHR ''='', Literal ''101'', Keep CHR '';'']
   \<and> target_text [Keep CHR ''x'', Keep CHR ''='', Literal ''101'', Keep CHR '';''] = ''x=0x5;''
   \<and> re_sub ''x=0b101;'' = Inr ''x=0x5;''
   \<and> (\<exists>ps. source_text ps = ''x=0b101;'' \<and> re_sub ''x=0b101;'' = Inr (target_text ps)
          \<and> scan_ok ps)"
proof -
  have a: "source_text [Keep CHR ''x'', Keep CHR ''='', Literal ''101'', Keep CHR '';''] = ''x=0b101;''"
    by (simp add: source_text_def)
  have b: "scan_ok [Keep CHR ''x'', Keep CHR ''='', Literal ''101'', Keep CHR '';'']"
    by (simp add: source_text_def is_bit_def)
  have c: "target_text [Keep CHR ''x'', Keep CHR ''='', Literal ''101'', Keep CHR '';''] = ''x=0x5;''"
    by (simp add: target_text_def bin_value_def bit_value_def hex_digits.simps hex_digit_def)
  have d: "re_sub ''x=0b101;'' = Inr ''x=0x5;''"
    using binary_to_hex_literal[of "''101''"]
    by (simp add: re_sub.simps(2) is_bit_def bin_value_def bit_value_def hex_digits.simps
        hex_digit_def)
  from re_sub_frame[of "''x=0b101;''"] a b c d show ?thesis by blast
qed

end
